theory Spec2Isabelle
  imports Main
begin

section \<open>The vote table of the tracvote plugin\<close>

text \<open>
  The plugin keeps one table, \<^verbatim>\<open>votes(resource, username, vote)\<close>, whose key is the
  whole triple. The table is modelled as the list of its rows, in insertion order. The
  \<^verbatim>\<open>vote\<close> column holds Python integers, which are unbounded, hence \<open>int\<close>. Strings
  are lists of characters; \<^verbatim>\<open>strip\<close> and the comparison with \<^verbatim>\<open>'wiki'\<close> work on
  them character by character, as they do on a Python \<^verbatim>\<open>str\<close>.
\<close>

record vote_row =
  resource :: string
  username :: string
  vote :: int

type_synonym votes = "vote_row list"

text \<open>
  The exceptions the modelled methods can raise. \<open>PermissionError\<close> is what
  \<^verbatim>\<open>req.perm.require\<close> raises, \<open>AttributeError\<close> is \<^verbatim>\<open>match.groups()\<close> on a path that
  the pattern does not match, \<open>KeyError\<close> is a lookup outside \<^verbatim>\<open>image_map\<close>,
  \<open>IntegrityError\<close> is the table's key refusing an
  \<^verbatim>\<open>INSERT\<close>, and \<open>ResourceError\<close> stands for whatever the host's
  \<^verbatim>\<open>get_resource_url\<close> expression raises on a resource object.
\<close>

datatype error =
  PermissionError | AttributeError | KeyError | IntegrityError | ResourceError

text \<open>
  The \<^verbatim>\<open>resource\<close> argument is either a string (\<^verbatim>\<open>basestring\<close>) or a resource object of
  the host framework, of a type \<open>'r\<close> that this development leaves open.
\<close>

datatype 'r resource_arg = Basestring string | Resource 'r

text \<open>
  The request object, as far as the plugin reads it: the permissions of the caller, the
  path, the \<^verbatim>\<open>js\<close> argument, and the identifier that the host's
  \<^verbatim>\<open>get_reporter_id(req)\<close> returns for it.
\<close>

record request =
  perm :: "string list"
  path_info :: string
  reporter_id :: string
  js :: bool

subsection \<open>Resource normalisation\<close>

text \<open>Python's \<^verbatim>\<open>s.strip(c)\<close> for a single character \<open>c\<close>.\<close>

definition strip :: "char \<Rightarrow> string \<Rightarrow> string" where
  "strip c s = rev (dropWhile (\<lambda>x. x = c) (rev (dropWhile (\<lambda>x. x = c) s)))"

text \<open>
  \<^verbatim>\<open>normalise_resource\<close>. The first argument is the host's
  \<^verbatim>\<open>get_resource_url(self.env, resource, Href(''))\<close>, which is not part of the plugin.
\<close>

definition normalise_resource ::
  "('r \<Rightarrow> error + string) \<Rightarrow> 'r resource_arg \<Rightarrow> error + string" where
  "normalise_resource get_resource_url res =
     (case res of
        Basestring s \<Rightarrow>
          (let s' = strip (CHR ''/'') s
           in if s' = ''wiki'' then Inr (s' @ ''/WikiStart'') else Inr s')
      | Resource r \<Rightarrow>
          (case get_resource_url r of
             Inl e \<Rightarrow> Inl e
           | Inr url \<Rightarrow> Inr (strip (CHR ''/'') url)))"

subsection \<open>The SQL statements\<close>

text \<open>
  \<^verbatim>\<open>SELECT sum(vote) FROM votes WHERE resource=%s\<close> followed by \<^verbatim>\<open>fetchone()\<close>: the
  aggregate always yields one row, whose only column is \<^verbatim>\<open>NULL\<close> when no row matches.
\<close>

definition select_sum_vote :: "string \<Rightarrow> votes \<Rightarrow> int option" where
  "select_sum_vote res db =
     (case filter (\<lambda>row. resource row = res) db of
        [] \<Rightarrow> None
      | rows \<Rightarrow> Some (sum_list (map vote rows)))"

text \<open>
  \<^verbatim>\<open>SELECT vote FROM votes WHERE username=%s AND resource=%s\<close> followed by
  \<^verbatim>\<open>fetchone()\<close>: the first matching row, or \<^verbatim>\<open>None\<close>.
\<close>

definition select_vote :: "string \<Rightarrow> string \<Rightarrow> votes \<Rightarrow> int option" where
  "select_vote user res db =
     (case filter (\<lambda>row. username row = user \<and> resource row = res) db of
        [] \<Rightarrow> None
      | row # _ \<Rightarrow> Some (vote row))"

text \<open>\<^verbatim>\<open>DELETE FROM votes WHERE username=%s AND resource=%s\<close>.\<close>

definition delete_vote :: "string \<Rightarrow> string \<Rightarrow> votes \<Rightarrow> votes" where
  "delete_vote user res db = filter (\<lambda>row. \<not> (username row = user \<and> resource row = res)) db"

text \<open>
  \<^verbatim>\<open>INSERT INTO votes (resource, username, vote) VALUES (%s, %s, %s)\<close>. The key of the
  table is the triple, so a row that is already there is refused. The column \<^verbatim>\<open>vote\<close> is
  taken to hold the integer it is given: a database refuses an integer outside the range
  of its integer type (32 or 64 bits, depending on the backend), and that refusal is not
  part of this model. The votes that the plugin computes itself are -1, 0 and +1; wherever
  a statement below speaks of storing other values, it is restricted to the 32-bit range,
  where the model and every backend agree.
\<close>

definition insert_vote :: "string \<Rightarrow> string \<Rightarrow> int \<Rightarrow> votes \<Rightarrow> error + votes" where
  "insert_vote res user v db =
     (let row = \<lparr>resource = res, username = user, vote = v\<rparr>
      in if row \<in> set db then Inl IntegrityError else Inr (db @ [row]))"

subsection \<open>The public methods\<close>

text \<open>
  In \<^verbatim>\<open>get_vote\<close> and \<^verbatim>\<open>set_vote\<close> the argument \<open>user\<close> is the value of
  \<^verbatim>\<open>get_reporter_id(req)\<close>, the only thing these methods read from the request.
\<close>

text \<open>\<^verbatim>\<open>row[0] or 0\<close>: \<^verbatim>\<open>None\<close> and \<^verbatim>\<open>0\<close> are the falsy values of the column.\<close>

definition or_zero :: "int option \<Rightarrow> int" where
  "or_zero x = (case x of None \<Rightarrow> 0 | Some n \<Rightarrow> if n = 0 then 0 else n)"

definition get_vote_count ::
  "('r \<Rightarrow> error + string) \<Rightarrow> 'r resource_arg \<Rightarrow> votes \<Rightarrow> error + int" where
  "get_vote_count get_resource_url res db =
     (case normalise_resource get_resource_url res of
        Inl e \<Rightarrow> Inl e
      | Inr res' \<Rightarrow> Inr (or_zero (select_sum_vote res' db)))"

text \<open>
  \<^verbatim>\<open>row and row[0] or 0\<close>: a fetched row is a non-empty tuple, hence truthy, so the
  expression is \<^verbatim>\<open>row[0] or 0\<close> when a row was fetched and \<^verbatim>\<open>0\<close> otherwise.
\<close>

definition get_vote ::
  "('r \<Rightarrow> error + string) \<Rightarrow> string \<Rightarrow> 'r resource_arg \<Rightarrow> votes \<Rightarrow> error + int" where
  "get_vote get_resource_url user res db =
     (case normalise_resource get_resource_url res of
        Inl e \<Rightarrow> Inl e
      | Inr res' \<Rightarrow> Inr (or_zero (select_vote user res' db)))"

text \<open>
  \<^verbatim>\<open>set_vote\<close> returns the table after \<^verbatim>\<open>db.commit()\<close>. \<^verbatim>\<open>if vote:\<close> tests the integer for
  being non-zero; nothing else about the value is tested.
\<close>

definition set_vote ::
  "('r \<Rightarrow> error + string) \<Rightarrow> string \<Rightarrow> 'r resource_arg \<Rightarrow> int \<Rightarrow> votes \<Rightarrow> error + votes" where
  "set_vote get_resource_url user res v db =
     (case normalise_resource get_resource_url res of
        Inl e \<Rightarrow> Inl e
      | Inr res' \<Rightarrow>
          (let db' = delete_vote user res' db
           in if v \<noteq> 0 then insert_vote res' user v db' else Inr db'))"

subsection \<open>Presentation of the count\<close>

text \<open>
  \<^verbatim>\<open>'%+i' % vote\<close>: the sign, always written, and the decimal digits of the absolute
  value, most significant first.
\<close>

definition digit_char :: "nat \<Rightarrow> char" where
  "digit_char d = ''0123456789'' ! d"

function decimal :: "nat \<Rightarrow> string" where
  "decimal n = (if n < 10 then [digit_char n] else decimal (n div 10) @ [digit_char (n mod 10)])"
  by pat_completeness auto
termination
  by (relation "measure id") auto

declare decimal.simps [simp del]

definition format_plus_i :: "int \<Rightarrow> string" where
  "format_plus_i n = (if n < 0 then CHR ''-'' else CHR ''+'') # decimal (nat \<bar>n\<bar>)"

definition str_count ::
  "('r \<Rightarrow> error + string) \<Rightarrow> 'r resource_arg \<Rightarrow> votes \<Rightarrow> error + string" where
  "str_count get_resource_url res db =
     (case get_vote_count get_resource_url res db of
        Inl e \<Rightarrow> Inl e
      | Inr n \<Rightarrow> Inr (format_plus_i n))"

subsection \<open>The request handler\<close>

text \<open>
  \<^verbatim>\<open>path_match.match(path)\<close> for the pattern \<^verbatim>\<open>/vote/(up|down)/(.*)\<close>, with the two
  groups. \<^verbatim>\<open>match\<close> anchors the pattern at the start of the path only, and \<^verbatim>\<open>.\<close> matches
  every character but the newline.
\<close>

definition path_match :: "string \<Rightarrow> (string \<times> string) option" where
  "path_match p =
     (if take 9 p = ''/vote/up/''
      then Some (''up'', takeWhile (\<lambda>c. c \<noteq> CHR 0x0A) (drop 9 p))
      else if take 11 p = ''/vote/down/''
      then Some (''down'', takeWhile (\<lambda>c. c \<noteq> CHR 0x0A) (drop 11 p))
      else None)"

definition image_map :: "int \<Rightarrow> (string \<times> string) option" where
  "image_map v =
     (if v = -1 then Some (''aupgray.png'', ''adownmod.png'')
      else if v = 0 then Some (''aupgray.png'', ''adowngray.png'')
      else if v = 1 then Some (''aupmod.png'', ''adowngray.png'')
      else None)"

text \<open>
  What the handler answers: \<open>Send a b c\<close> is \<^verbatim>\<open>req.send\<close> of the three parts joined
  by colons, where \<open>a\<close> and \<open>b\<close> are the paths handed to the host's \<^verbatim>\<open>req.href.chrome\<close>
  and \<open>c\<close> is the formatted count; \<open>Redirect r\<close> is \<^verbatim>\<open>req.redirect(r)\<close>.
\<close>

datatype response = Send string string string | Redirect string

text \<open>
  \<^verbatim>\<open>process_request\<close> returns what it answers or raises, and the table it leaves.
\<close>

definition process_request ::
  "('r \<Rightarrow> error + string) \<Rightarrow> request \<Rightarrow> votes \<Rightarrow> (error + response) \<times> votes" where
  "process_request get_resource_url req db =
     (if ''VOTE_MODIFY'' \<notin> set (perm req) then (Inl PermissionError, db)
      else case path_match (path_info req) of
        None \<Rightarrow> (Inl AttributeError, db)
      | Some (direction, res) \<Rightarrow>
         (case normalise_resource get_resource_url (Basestring res) of
            Inl e \<Rightarrow> (Inl e, db)
          | Inr res' \<Rightarrow>
             (let v = (if direction = ''up'' then 1 else - 1) in
              case get_vote get_resource_url (reporter_id req) (Basestring res') db of
                Inl e \<Rightarrow> (Inl e, db)
              | Inr old_vote \<Rightarrow>
                 (let v' = (if old_vote = v then 0 else v) in
                  case (if old_vote = v
                        then set_vote get_resource_url (reporter_id req) (Basestring res') 0 db
                        else set_vote get_resource_url (reporter_id req) (Basestring res') v db) of
                    Inl e \<Rightarrow> (Inl e, db)
                  | Inr db' \<Rightarrow>
                     (if js req
                      then (case image_map v' of
                              None \<Rightarrow> (Inl KeyError, db')
                            | Some (up, down) \<Rightarrow>
                               (case str_count get_resource_url (Basestring res') db' of
                                  Inl e \<Rightarrow> (Inl e, db')
                                | Inr c \<Rightarrow> (Inr (Send (''vote/'' @ up) (''vote/'' @ down) c), db')))
                      else (Inr (Redirect res'), db'))))))"

subsection \<open>Sequences of calls\<close>

text \<open>
  A call of \<^verbatim>\<open>set_vote\<close> is given by its user, its resource and its value. The table
  starts empty (\<^verbatim>\<open>upgrade_environment\<close> creates it); a call that raises leaves it as it
  was, since \<^verbatim>\<open>db.commit()\<close> is not reached.
\<close>

type_synonym 'r call = "string \<times> 'r resource_arg \<times> int"

fun run_calls :: "('r \<Rightarrow> error + string) \<Rightarrow> 'r call list \<Rightarrow> votes \<Rightarrow> votes" where
  "run_calls get_resource_url [] db = db"
| "run_calls get_resource_url ((user, res, v) # cs) db =
     run_calls get_resource_url cs
       (case set_vote get_resource_url user res v db of Inl e \<Rightarrow> db | Inr db' \<Rightarrow> db')"

text \<open>The users who ever called \<^verbatim>\<open>set_vote\<close> on the resource with key \<open>k\<close>, each once.\<close>

definition voters :: "('r \<Rightarrow> error + string) \<Rightarrow> string \<Rightarrow> 'r call list \<Rightarrow> string list" where
  "voters get_resource_url k cs =
     remdups (map fst
       (filter (\<lambda>(user, res, v). normalise_resource get_resource_url res = Inr k) cs))"

text \<open>
  The sum of the results of several calls, as \<^verbatim>\<open>sum(get_vote(u, r) for u in users)\<close>
  computes it: the first call that raises ends it.
\<close>

fun sum_results :: "(error + int) list \<Rightarrow> error + int" where
  "sum_results [] = Inr 0"
| "sum_results (Inl e # xs) = Inl e"
| "sum_results (Inr n # xs) = (case sum_results xs of Inl e \<Rightarrow> Inl e | Inr m \<Rightarrow> Inr (n + m))"

text \<open>The value of a string of decimal digits.\<close>

definition digit_value :: "char \<Rightarrow> nat" where
  "digit_value c = of_char c - 48"

definition decimal_value :: "string \<Rightarrow> nat" where
  "decimal_value ds = foldl (\<lambda>a c. 10 * a + digit_value c) 0 ds"

text \<open>The rows that the table holds for a resource and a user.\<close>

definition rows_of :: "string \<Rightarrow> string \<Rightarrow> votes \<Rightarrow> votes" where
  "rows_of res user db = filter (\<lambda>row. username row = user \<and> resource row = res) db"

section \<open>Properties of the normalisation\<close>

lemma strip_split:
  "dropWhile (\<lambda>x. x = c) s =
     strip c s @ rev (takeWhile (\<lambda>x. x = c) (rev (dropWhile (\<lambda>x. x = c) s)))"
proof -
  let ?P = "\<lambda>x. x = c"
  let ?t = "dropWhile ?P s"
  have "?t = rev (takeWhile ?P (rev ?t) @ dropWhile ?P (rev ?t))"
    by (simp only: takeWhile_dropWhile_id rev_rev_ident)
  also have "\<dots> = rev (dropWhile ?P (rev ?t)) @ rev (takeWhile ?P (rev ?t))"
    by (rule rev_append)
  finally show ?thesis by (simp only: strip_def)
qed

lemma strip_decomp:
  "s = takeWhile (\<lambda>x. x = c) s @ strip c s @
       rev (takeWhile (\<lambda>x. x = c) (rev (dropWhile (\<lambda>x. x = c) s)))"
proof -
  have "s = takeWhile (\<lambda>x. x = c) s @ dropWhile (\<lambda>x. x = c) s" by simp
  then show ?thesis by (simp only: strip_split [symmetric])
qed

lemma strip_no_lead:
  assumes "strip c s \<noteq> []"
  shows "hd (strip c s) \<noteq> c"
proof -
  let ?t = "dropWhile (\<lambda>x. x = c) s"
  from assms have "hd ?t = hd (strip c s)"
    by (subst strip_split) simp
  moreover from assms have "?t \<noteq> []"
    by (subst strip_split) simp
  then have "hd ?t \<noteq> c" by (rule hd_dropWhile)
  ultimately show ?thesis by simp
qed

lemma strip_no_trail:
  assumes "strip c s \<noteq> []"
  shows "last (strip c s) \<noteq> c"
proof -
  let ?xs = "dropWhile (\<lambda>x. x = c) (rev (dropWhile (\<lambda>x. x = c) s))"
  from assms have ne: "?xs \<noteq> []" by (simp add: strip_def)
  then have "hd ?xs \<noteq> c" by (rule hd_dropWhile)
  with ne show ?thesis by (simp add: strip_def last_rev)
qed

lemma strip_fixed:
  assumes "s = [] \<or> (hd s \<noteq> c \<and> last s \<noteq> c)"
  shows "strip c s = s"
proof (cases s)
  case Nil
  then show ?thesis by (simp add: strip_def)
next
  case (Cons a l)
  with assms have front: "dropWhile (\<lambda>x. x = c) s = s" by simp
  from assms Cons have "hd (rev s) \<noteq> c" by (simp only: hd_rev) auto
  moreover from Cons have "rev s \<noteq> []" by simp
  ultimately have "dropWhile (\<lambda>x. x = c) (rev s) = rev s"
    by (cases "rev s") auto
  with front show ?thesis by (simp add: strip_def)
qed

lemma strip_idem: "strip c (strip c s) = strip c s"
  by (rule strip_fixed) (use strip_no_lead strip_no_trail in blast)


lemma strip_wiki: "strip (CHR ''/'') ''wiki/WikiStart'' = ''wiki/WikiStart''"
  by (simp add: strip_def)

lemma normalise_resource_idem:
  assumes "normalise_resource g (Basestring s) = Inr k"
  shows "normalise_resource g (Basestring k) = Inr k"
proof (cases "strip (CHR ''/'') s = ''wiki''")
  case True
  with assms have "k = ''wiki/WikiStart''"
    by (simp add: normalise_resource_def)
  then show ?thesis
    by (simp add: normalise_resource_def strip_wiki)
next
  case False
  with assms have k: "k = strip (CHR ''/'') s"
    by (simp add: normalise_resource_def)
  then have "strip (CHR ''/'') k = k" by (simp add: strip_idem)
  with k False show ?thesis
    by (simp add: normalise_resource_def)
qed

lemma normalise_resource_string:
  "normalise_resource g (Basestring s) =
     Inr (if strip (CHR ''/'') s = ''wiki'' then ''wiki/WikiStart'' else strip (CHR ''/'') s)"
  by (simp add: normalise_resource_def)

section \<open>Properties of the table operations\<close>

lemma or_zero_simp: "or_zero x = (case x of None \<Rightarrow> 0 | Some n \<Rightarrow> n)"
  by (simp add: or_zero_def split: option.splits)

lemma rows_of_delete_same: "rows_of k u (delete_vote u k db) = []"
  by (simp add: rows_of_def delete_vote_def)

lemma rows_of_delete_other:
  "(k', u') \<noteq> (k, u) \<Longrightarrow> rows_of k' u' (delete_vote u k db) = rows_of k' u' db"
  by (auto simp: rows_of_def delete_vote_def intro: filter_cong)

lemma select_vote_rows_of:
  "select_vote u k db = (case rows_of k u db of [] \<Rightarrow> None | row # _ \<Rightarrow> Some (vote row))"
  by (simp add: select_vote_def rows_of_def)

lemma insert_after_delete:
  "insert_vote k u v (delete_vote u k db) =
     Inr (delete_vote u k db @ [\<lparr>resource = k, username = u, vote = v\<rparr>])"
  by (simp add: insert_vote_def delete_vote_def)

lemma set_vote_result:
  assumes "normalise_resource g res = Inr k"
  shows "set_vote g u res v db =
     Inr (delete_vote u k db @ (if v \<noteq> 0 then [\<lparr>resource = k, username = u, vote = v\<rparr>] else []))"
  using assms by (simp add: set_vote_def insert_after_delete)

lemma set_vote_error:
  assumes "normalise_resource g res = Inl e"
  shows "set_vote g u res v db = Inl e"
  using assms by (simp add: set_vote_def)

lemma get_vote_result:
  assumes "normalise_resource g res = Inr k"
  shows "get_vote g u res db =
     Inr (case rows_of k u db of [] \<Rightarrow> 0 | row # _ \<Rightarrow> vote row)"
  using assms by (simp add: get_vote_def or_zero_simp select_vote_rows_of split: list.splits)

lemma get_vote_count_result:
  assumes "normalise_resource g res = Inr k"
  shows "get_vote_count g res db = Inr (sum_list (map vote (filter (\<lambda>row. resource row = k) db)))"
  using assms
  by (simp add: get_vote_count_def or_zero_simp select_sum_vote_def split: list.splits)

lemma rows_of_Nil: "rows_of k u [] = []"
  by (simp add: rows_of_def)

lemma rows_of_append: "rows_of k u (xs @ ys) = rows_of k u xs @ rows_of k u ys"
  by (simp add: rows_of_def)

lemma rows_of_single:
  "rows_of k' u' [\<lparr>resource = k, username = u, vote = v\<rparr>] =
     (if (k', u') = (k, u) then [\<lparr>resource = k, username = u, vote = v\<rparr>] else [])"
  by (auto simp: rows_of_def)

lemma rows_of_set_vote_same:
  assumes "normalise_resource g res = Inr k" and "set_vote g u res v db = Inr db'"
  shows "rows_of k u db' = (if v \<noteq> 0 then [\<lparr>resource = k, username = u, vote = v\<rparr>] else [])"
  using assms
  by (auto simp: set_vote_result rows_of_append rows_of_delete_same rows_of_single rows_of_Nil)

lemma rows_of_set_vote_other:
  assumes "normalise_resource g res = Inr k" and "set_vote g u res v db = Inr db'"
    and "(k', u') \<noteq> (k, u)"
  shows "rows_of k' u' db' = rows_of k' u' db"
  using assms
  by (auto simp: set_vote_result rows_of_append rows_of_delete_other rows_of_single rows_of_Nil)


lemma set_vote_one_row:
  assumes "normalise_resource g res = Inr k" and "set_vote g u res v db = Inr db'"
    and "length (rows_of k' u' db) \<le> 1"
  shows "length (rows_of k' u' db') \<le> 1"
proof (cases "(k', u') = (k, u)")
  case True
  with assms(1,2) show ?thesis by (simp add: rows_of_set_vote_same)
next
  case False
  with assms show ?thesis by (simp add: rows_of_set_vote_other)
qed

lemma set_vote_total_string: "\<exists>db'. set_vote g u (Basestring r) v db = Inr db'"
  by (simp add: set_vote_result [OF normalise_resource_string])

lemma run_calls_one_row:
  "length (rows_of k u db) \<le> 1 \<Longrightarrow> length (rows_of k u (run_calls g cs db)) \<le> 1"
proof (induction cs arbitrary: db)
  case Nil
  then show ?case by simp
next
  case (Cons c cs)
  obtain u' res v where c: "c = (u', res, v)" by (cases c)
  show ?case
  proof (cases "normalise_resource g res")
    case (Inl e)
    with Cons c show ?thesis by (simp add: set_vote_error)
  next
    case (Inr k')
    then obtain db' where db': "set_vote g u' res v db = Inr db'"
      by (simp add: set_vote_result)
    from Inr db' Cons.prems have "length (rows_of k u db') \<le> 1"
      by (rule set_vote_one_row)
    then have "length (rows_of k u (run_calls g cs db')) \<le> 1" by (rule Cons.IH)
    with c db' show ?thesis by simp
  qed
qed


lemma set_vote_rows:
  assumes "set_vote g u res v db = Inr db'" and "row \<in> set db'"
  shows "row \<in> set db \<or> (normalise_resource g res = Inr (resource row) \<and> username row = u)"
proof (cases "normalise_resource g res")
  case (Inl e)
  with assms show ?thesis by (simp add: set_vote_error)
next
  case (Inr k)
  with assms show ?thesis
    by (auto simp: set_vote_result delete_vote_def split: if_splits)
qed

lemma run_calls_rows:
  "row \<in> set (run_calls g cs db) \<Longrightarrow>
     row \<in> set db \<or> username row \<in> set (voters g (resource row) cs)"
proof (induction cs arbitrary: db)
  case Nil
  then show ?case by simp
next
  case (Cons c cs)
  obtain u res v where c: "c = (u, res, v)" by (cases c)
  have mono: "set (voters g k cs) \<subseteq> set (voters g k (c # cs))" for k
    by (auto simp: voters_def)
  show ?case
  proof (cases "set_vote g u res v db")
    case (Inl e)
    with Cons.prems c have "row \<in> set (run_calls g cs db)" by simp
    then have "row \<in> set db \<or> username row \<in> set (voters g (resource row) cs)"
      by (rule Cons.IH)
    with mono show ?thesis by blast
  next
    case (Inr db')
    with Cons.prems c have "row \<in> set (run_calls g cs db')" by simp
    then have "row \<in> set db' \<or> username row \<in> set (voters g (resource row) cs)"
      by (rule Cons.IH)
    moreover have "username row \<in> set (voters g (resource row) (c # cs))"
      if "normalise_resource g res = Inr (resource row)" "username row = u"
      using that c by (auto simp: voters_def)
    ultimately show ?thesis
      using set_vote_rows [OF Inr, of row] mono by blast
  qed
qed

lemma sum_list_bump:
  "distinct us \<Longrightarrow> u0 \<in> set us \<Longrightarrow>
     sum_list (map (\<lambda>u. if u = u0 then x + f u else f u) us) = x + sum_list (map f us)"
  for x :: int
proof (induction us)
  case Nil
  then show ?case by simp
next
  case (Cons a us)
  show ?case
  proof (cases "a = u0")
    case True
    let ?g = "\<lambda>u. if u = u0 then x + f u else f u"
    from Cons.prems True have "u0 \<notin> set us" by simp
    then have eq: "sum_list (map ?g us) = sum_list (map f us)"
      by (induction us) auto
    from True have "sum_list (map ?g (a # us)) = (x + f a) + sum_list (map ?g us)"
      by simp
    also have "\<dots> = (x + f a) + sum_list (map f us)"
      by (simp only: eq)
    finally show ?thesis by simp
  next
    case False
    with Cons show ?thesis by simp
  qed
qed

lemma sum_by_user:
  assumes "distinct us"
  shows "(\<forall>row \<in> set db. resource row = k \<longrightarrow> username row \<in> set us) \<Longrightarrow>
     sum_list (map vote (filter (\<lambda>row. resource row = k) db)) =
     sum_list (map (\<lambda>u. sum_list (map vote (rows_of k u db))) us)"
proof (induction db)
  case Nil
  then show ?case by (simp add: rows_of_def)
next
  case (Cons row db)
  then have IH: "sum_list (map vote (filter (\<lambda>row. resource row = k) db)) =
     sum_list (map (\<lambda>u. sum_list (map vote (rows_of k u db))) us)" by simp
  show ?case
  proof (cases "resource row = k")
    case False
    then have "rows_of k u (row # db) = rows_of k u db" for u
      by (simp add: rows_of_def)
    with False IH show ?thesis by simp
  next
    case True
    with Cons.prems have mem: "username row \<in> set us" by simp
    from True have "sum_list (map vote (rows_of k u (row # db))) =
        (if u = username row then vote row + sum_list (map vote (rows_of k u db))
         else sum_list (map vote (rows_of k u db)))" for u
      by (auto simp: rows_of_def)
    then have "sum_list (map (\<lambda>u. sum_list (map vote (rows_of k u (row # db)))) us) =
        vote row + sum_list (map (\<lambda>u. sum_list (map vote (rows_of k u db))) us)"
      using sum_list_bump [OF assms mem] by simp
    with True IH show ?thesis by simp
  qed
qed

lemma sum_results_Inr: "sum_results (map (\<lambda>u. Inr (f u)) us) = Inr (sum_list (map f us))"
  by (induction us) simp_all

lemma one_row_sum:
  "length (rows_of k u db) \<le> 1 \<Longrightarrow>
     sum_list (map vote (rows_of k u db)) = (case rows_of k u db of [] \<Rightarrow> 0 | row # _ \<Rightarrow> vote row)"
  by (cases "rows_of k u db") auto

lemma set_vote_nonzero:
  assumes "set_vote g u res v db = Inr db'" and "\<forall>row \<in> set db. vote row \<noteq> 0"
  shows "\<forall>row \<in> set db'. vote row \<noteq> 0"
proof (cases "normalise_resource g res")
  case (Inl e)
  with assms show ?thesis by (simp add: set_vote_error)
next
  case (Inr k)
  with assms show ?thesis
    by (auto simp: set_vote_result delete_vote_def split: if_splits)
qed

lemma run_calls_nonzero:
  "\<forall>row \<in> set db. vote row \<noteq> 0 \<Longrightarrow> \<forall>row \<in> set (run_calls g cs db). vote row \<noteq> 0"
proof (induction cs arbitrary: db)
  case Nil
  then show ?case by simp
next
  case (Cons c cs)
  obtain u res v where c: "c = (u, res, v)" by (cases c)
  show ?case
  proof (cases "set_vote g u res v db")
    case (Inl e)
    with c Cons show ?thesis by simp
  next
    case (Inr db')
    from Inr Cons.prems have "\<forall>row \<in> set db'. vote row \<noteq> 0" by (rule set_vote_nonzero)
    then have "\<forall>row \<in> set (run_calls g cs db'). vote row \<noteq> 0" by (rule Cons.IH)
    with c Inr show ?thesis by simp
  qed
qed

lemma takeWhile_only: "set (takeWhile (\<lambda>x. x = c) s) \<subseteq> {c}"
  by (auto dest: set_takeWhileD)

lemma below_ten: "d < 10 \<Longrightarrow> d \<in> {0, 1, 2, 3, 4, 5, 6, 7, 8, 9::nat}"
  by auto

lemma digit_value_digit_char: "d < 10 \<Longrightarrow> digit_value (digit_char d) = d"
  by (drule below_ten) (auto simp: digit_value_def digit_char_def)

lemma digit_char_digit: "d < 10 \<Longrightarrow> digit_char d \<in> set ''0123456789''"
  by (drule below_ten) (auto simp: digit_char_def)

lemma digit_char_zero: "d < 10 \<Longrightarrow> (digit_char d = CHR ''0'') = (d = 0)"
  by (drule below_ten) (auto simp: digit_char_def)

lemma decimal_small: "n < 10 \<Longrightarrow> decimal n = [digit_char n]"
  by (subst decimal.simps) simp

lemma decimal_large: "\<not> n < 10 \<Longrightarrow> decimal n = decimal (n div 10) @ [digit_char (n mod 10)]"
  by (subst decimal.simps) simp

lemma decimal_nonempty: "decimal n \<noteq> []"
  by (cases "n < 10") (simp_all add: decimal_small decimal_large)

lemma decimal_value_snoc: "decimal_value (ds @ [c]) = 10 * decimal_value ds + digit_value c"
  by (simp add: decimal_value_def)

lemma decimal_value_decimal: "decimal_value (decimal n) = n"
proof (induction n rule: decimal.induct)
  case (1 n)
  show ?case
  proof (cases "n < 10")
    case True
    then show ?thesis
      by (simp add: decimal_small decimal_value_def digit_value_digit_char)
  next
    case False
    with 1 have "decimal_value (decimal (n div 10)) = n div 10" by simp
    with False show ?thesis
      by (simp add: decimal_large decimal_value_snoc digit_value_digit_char)
  qed
qed

lemma decimal_digits_in:
  assumes "\<And>d. d < 10 \<Longrightarrow> digit_char d \<in> D"
  shows "set (decimal n) \<subseteq> D"
proof (induction n rule: decimal.induct)
  case (1 n)
  show ?case
  proof (cases "n < 10")
    case True
    then have "digit_char n \<in> D" by (rule assms)
    with True show ?thesis by (simp add: decimal_small)
  next
    case False
    with 1 have "set (decimal (n div 10)) \<subseteq> D" by simp
    moreover have "digit_char (n mod 10) \<in> D"
      by (rule assms) simp
    ultimately show ?thesis
      using False by (simp add: decimal_large)
  qed
qed

lemma decimal_digits: "set (decimal n) \<subseteq> set ''0123456789''"
  by (rule decimal_digits_in) (rule digit_char_digit)

lemma decimal_hd_zero: "(hd (decimal n) = CHR ''0'') = (n = 0)"
proof (induction n rule: decimal.induct)
  case (1 n)
  show ?case
  proof (cases "n < 10")
    case True
    then show ?thesis by (simp add: decimal_small digit_char_zero)
  next
    case False
    with 1 have "(hd (decimal (n div 10)) = CHR ''0'') = (n div 10 = 0)" by simp
    with False show ?thesis
      by (simp add: decimal_large decimal_nonempty)
  qed
qed

lemma decimal_zero: "decimal 0 = ''0''"
  by (simp add: decimal_small digit_char_def)

lemma format_plus_i_examples:
  "format_plus_i 3 = ''+3''" "format_plus_i (- 1) = ''-1''" "format_plus_i 0 = ''+0''"
  by (simp_all add: format_plus_i_def decimal_small digit_char_def)

lemma get_vote_normalised:
  assumes "normalise_resource g (Basestring res) = Inr k"
  shows "get_vote g u (Basestring k) db = get_vote g u (Basestring res) db"
  using assms normalise_resource_idem [OF assms] by (simp add: get_vote_def)

lemma set_vote_normalised:
  assumes "normalise_resource g (Basestring res) = Inr k"
  shows "set_vote g u (Basestring k) v db = set_vote g u (Basestring res) v db"
  using assms normalise_resource_idem [OF assms] by (simp add: set_vote_def)

lemma str_count_string:
  "\<exists>c. str_count g (Basestring r) db = Inr c"
  by (simp add: str_count_def get_vote_count_def normalise_resource_string)

lemma image_map_toggle:
  "\<exists>up down. image_map (if old = (if b then 1 else - 1) then 0 else (if b then 1 else - 1)) =
     Some (up, down)"
  by (simp add: image_map_def)

lemma process_request_result:
  assumes perm: "''VOTE_MODIFY'' \<in> set (perm req)"
    and path: "path_match (path_info req) = Some (dir, res)"
    and old: "get_vote g (reporter_id req) (Basestring res) db = Inr old"
  shows "\<exists>resp db'. process_request g req db = (Inr resp, db') \<and>
     set_vote g (reporter_id req) (Basestring res)
       (if old = (if dir = ''up'' then 1 else - 1) then 0 else (if dir = ''up'' then 1 else - 1)) db =
       Inr db'"
proof -
  let ?u = "reporter_id req"
  let ?d = "if dir = ''up'' then 1 else - 1 :: int"
  let ?v = "if old = ?d then 0 else ?d"
  obtain k where k: "normalise_resource g (Basestring res) = Inr k"
    by (simp add: normalise_resource_string)
  from old have old': "get_vote g ?u (Basestring k) db = Inr old"
    by (simp only: get_vote_normalised [OF k])
  obtain db' where db': "set_vote g ?u (Basestring res) ?v db = Inr db'"
    using set_vote_total_string by blast
  then have set': "set_vote g ?u (Basestring k) ?v db = Inr db'"
    by (simp only: set_vote_normalised [OF k])
  obtain c where c: "str_count g (Basestring k) db' = Inr c"
    using str_count_string by blast
  obtain up down where img: "image_map ?v = Some (up, down)"
    using image_map_toggle [of old "dir = ''up''"] by blast
  have "process_request g req db =
      (Inr (if js req then Send (''vote/'' @ up) (''vote/'' @ down) c else Redirect k), db')"
  proof (cases "dir = ''up''")
    case up: True
    show ?thesis
    proof (cases "old = 1")
      case True
      from set' up True have s: "set_vote g ?u (Basestring k) 0 db = Inr db'" by simp
      from img up True have i: "image_map 0 = Some (up, down)" by simp
      from perm path k old' s i c up True show ?thesis
        by (simp add: process_request_def)
    next
      case False
      from set' up False have s: "set_vote g ?u (Basestring k) 1 db = Inr db'" by simp
      from img up False have i: "image_map 1 = Some (up, down)" by simp
      from perm path k old' s i c up False show ?thesis
        by (simp add: process_request_def)
    qed
  next
    case down: False
    show ?thesis
    proof (cases "old = - 1")
      case True
      from set' down True have s: "set_vote g ?u (Basestring k) 0 db = Inr db'" by simp
      from img down True have i: "image_map 0 = Some (up, down)" by simp
      from perm path k old' s i c down True show ?thesis
        by (simp add: process_request_def)
    next
      case False
      from set' down False have s: "set_vote g ?u (Basestring k) (- 1) db = Inr db'" by simp
      from img down False have i: "image_map (- 1) = Some (up, down)" by simp
      from perm path k old' s i c down False show ?thesis
        by (simp add: process_request_def)
    qed
  qed
  with db' show ?thesis by blast
qed

lemma get_vote_after_set_vote:
  assumes "set_vote g u (Basestring r) v db = Inr db'"
  shows "get_vote g u (Basestring r) db' = Inr v"
proof -
  obtain k where k: "normalise_resource g (Basestring r) = Inr k"
    by (simp add: normalise_resource_string)
  from k assms have "rows_of k u db' = (if v \<noteq> 0 then [\<lparr>resource = k, username = u, vote = v\<rparr>] else [])"
    by (rule rows_of_set_vote_same)
  then show ?thesis
    by (simp add: get_vote_result [OF k])
qed

lemma get_vote_total_string: "\<exists>old. get_vote g u (Basestring r) db = Inr old"
  by (simp add: get_vote_def normalise_resource_string)

lemma process_request_vote:
  assumes "''VOTE_MODIFY'' \<in> set (perm req)"
    and "path_match (path_info req) = Some (dir, res)"
  shows "\<exists>old resp db'.
     get_vote g (reporter_id req) (Basestring res) db = Inr old \<and>
     process_request g req db = (Inr resp, db') \<and>
     get_vote g (reporter_id req) (Basestring res) db' =
       Inr (if old = (if dir = ''up'' then 1 else - 1) then 0
            else (if dir = ''up'' then 1 else - 1))"
proof -
  obtain old where old: "get_vote g (reporter_id req) (Basestring res) db = Inr old"
    using get_vote_total_string by blast
  with assms obtain resp db' where pr: "process_request g req db = (Inr resp, db')"
    and sv: "set_vote g (reporter_id req) (Basestring res)
       (if old = (if dir = ''up'' then 1 else - 1) then 0 else (if dir = ''up'' then 1 else - 1)) db =
       Inr db'"
    using process_request_result [of req dir res g db old] by blast
  from sv have "get_vote g (reporter_id req) (Basestring res) db' =
       Inr (if old = (if dir = ''up'' then 1 else - 1) then 0
            else (if dir = ''up'' then 1 else - 1))"
    by (rule get_vote_after_set_vote)
  with old pr show ?thesis by blast
qed

lemma process_request_table:
  "\<exists>v'. v' \<in> {- 1, 0, 1} \<and>
     (snd (process_request g req db) = db \<or>
      (\<exists>res. set_vote g (reporter_id req) (Basestring res) v' db =
         Inr (snd (process_request g req db))))"
proof (cases "''VOTE_MODIFY'' \<in> set (perm req)")
  case False
  then have "snd (process_request g req db) = db"
    by (simp add: process_request_def)
  then show ?thesis by blast
next
  case perm: True
  show ?thesis
  proof (cases "path_match (path_info req)")
    case None
    with perm have "snd (process_request g req db) = db"
      by (simp add: process_request_def)
    then show ?thesis by blast
  next
    case (Some m)
    obtain dir res where m: "m = (dir, res)" by (cases m)
    obtain old where old: "get_vote g (reporter_id req) (Basestring res) db = Inr old"
      using get_vote_total_string by blast
    let ?v = "if old = (if dir = ''up'' then 1 else - 1) then 0
              else (if dir = ''up'' then 1 else - 1) :: int"
    from perm Some m old obtain resp db' where
      pr: "process_request g req db = (Inr resp, db')" and
      sv: "set_vote g (reporter_id req) (Basestring res) ?v db = Inr db'"
      using process_request_result [of req dir res g db old] by blast
    have "?v \<in> {- 1, 0, 1}" by simp
    moreover from pr sv have "set_vote g (reporter_id req) (Basestring res) ?v db =
        Inr (snd (process_request g req db))" by simp
    ultimately show ?thesis by blast
  qed
qed

section \<open>The claims\<close>

text \<open>
  The concrete instances below take the host's \<^verbatim>\<open>get_resource_url\<close> to raise on every
  resource object; the resources they use are strings, so it is never called.
\<close>

text \<open>
  C1: for every user \<open>u\<close>, every string resource \<open>r\<close> and every vote \<open>v\<close> other than 0,
  from any table, \<^verbatim>\<open>set_vote(u, r, v)\<close> returns without raising, and \<^verbatim>\<open>get_vote(u, r)\<close> on
  the table it leaves returns \<open>v\<close>.
\<close>

theorem set_vote_then_get_vote:
  "v \<noteq> 0 \<Longrightarrow>
     \<exists>db'. set_vote g u (Basestring r) v db = Inr db' \<and> get_vote g u (Basestring r) db' = Inr v"
proof -
  assume v: "v \<noteq> 0"
  obtain k where k: "normalise_resource g (Basestring r) = Inr k"
    by (simp add: normalise_resource_string)
  let ?db' = "delete_vote u k db @ [\<lparr>resource = k, username = u, vote = v\<rparr>]"
  from k v have set: "set_vote g u (Basestring r) v db = Inr ?db'"
    by (simp add: set_vote_result)
  with k v have "rows_of k u ?db' = [\<lparr>resource = k, username = u, vote = v\<rparr>]"
    by (simp add: rows_of_set_vote_same)
  with k have "get_vote g u (Basestring r) ?db' = Inr v"
    by (simp add: get_vote_result)
  with set show ?thesis by blast
qed

theorem set_vote_then_get_vote_witness:
  "(1::int) \<noteq> 0 \<and>
   set_vote (\<lambda>_::unit. Inl ResourceError) ''alice'' (Basestring ''/ticket/5'') 1 [] =
     Inr [\<lparr>resource = ''ticket/5'', username = ''alice'', vote = 1\<rparr>] \<and>
   get_vote (\<lambda>_::unit. Inl ResourceError) ''alice'' (Basestring ''/ticket/5'')
     [\<lparr>resource = ''ticket/5'', username = ''alice'', vote = 1\<rparr>] = Inr 1"
  using set_vote_then_get_vote [of 1 "\<lambda>_::unit. Inl ResourceError" "''alice''" "''/ticket/5''" "[]"]
  by (auto simp: set_vote_def normalise_resource_def strip_def delete_vote_def insert_vote_def)

text \<open>
  C3: the table that any sequence of \<^verbatim>\<open>set_vote\<close> calls leaves, starting from the empty
  table, holds at most one row for every pair of a resource and a user. The reason is the
  second part: from any table whatever, \<^verbatim>\<open>set_vote(u', r, v)\<close> leaves for its own key
  exactly the row it inserts, or none when \<open>v\<close> is 0, since it deletes first.
\<close>

theorem one_row_per_resource_and_user:
  "length (rows_of k u (run_calls g cs [])) \<le> 1 \<and>
   (\<exists>k' db'. normalise_resource g (Basestring r) = Inr k' \<and>
      set_vote g u' (Basestring r) v db = Inr db' \<and>
      rows_of k' u' db' = (if v \<noteq> 0 then [\<lparr>resource = k', username = u', vote = v\<rparr>] else []))"
proof
  show "length (rows_of k u (run_calls g cs [])) \<le> 1"
    by (rule run_calls_one_row) (simp add: rows_of_Nil)
next
  obtain k' where k': "normalise_resource g (Basestring r) = Inr k'"
    by (simp add: normalise_resource_string)
  then obtain db' where db': "set_vote g u' (Basestring r) v db = Inr db'"
    by (simp add: set_vote_result)
  with k' have "rows_of k' u' db' =
      (if v \<noteq> 0 then [\<lparr>resource = k', username = u', vote = v\<rparr>] else [])"
    by (rule rows_of_set_vote_same)
  with k' db' show "\<exists>k' db'. normalise_resource g (Basestring r) = Inr k' \<and>
      set_vote g u' (Basestring r) v db = Inr db' \<and>
      rows_of k' u' db' = (if v \<noteq> 0 then [\<lparr>resource = k', username = u', vote = v\<rparr>] else [])"
    by blast
qed

theorem one_row_per_resource_and_user_witness:
  "rows_of ''ticket/5'' ''alice''
     (run_calls (\<lambda>_::unit. Inl ResourceError)
        [(''alice'', Basestring ''ticket/5'', 1), (''bob'', Basestring ''ticket/5'', - 1),
         (''alice'', Basestring ''/ticket/5/'', - 1)] []) =
     [\<lparr>resource = ''ticket/5'', username = ''alice'', vote = - 1\<rparr>] \<and>
   length (rows_of ''ticket/5'' ''alice''
     (run_calls (\<lambda>_::unit. Inl ResourceError)
        [(''alice'', Basestring ''ticket/5'', 1), (''bob'', Basestring ''ticket/5'', - 1),
         (''alice'', Basestring ''/ticket/5/'', - 1)] [])) \<le> 1"
  using one_row_per_resource_and_user [of "''ticket/5''" "''alice''" "\<lambda>_::unit. Inl ResourceError"
     "[(''alice'', Basestring ''ticket/5'', 1), (''bob'', Basestring ''ticket/5'', - 1),
         (''alice'', Basestring ''/ticket/5/'', - 1)]"]
  by (simp add: set_vote_def normalise_resource_def strip_def delete_vote_def insert_vote_def
      rows_of_def)

text \<open>
  C4: from any table, \<^verbatim>\<open>set_vote(u, r, v)\<close> followed by \<^verbatim>\<open>set_vote(u, r, 0)\<close> leaves
  no row for the key of \<open>r\<close> and \<open>u\<close>, and \<^verbatim>\<open>get_vote(u, r)\<close> is then 0. A zero is never
  stored: no row of a table left by a sequence of \<^verbatim>\<open>set_vote\<close> calls has the vote 0.
\<close>

theorem clearing_deletes_the_row:
  "(\<exists>k db1 db2. normalise_resource g (Basestring r) = Inr k \<and>
      set_vote g u (Basestring r) v db = Inr db1 \<and>
      set_vote g u (Basestring r) 0 db1 = Inr db2 \<and>
      get_vote g u (Basestring r) db2 = Inr 0 \<and>
      rows_of k u db2 = []) \<and>
   (\<forall>row \<in> set (run_calls g cs []). vote row \<noteq> 0)"
proof
  obtain k where k: "normalise_resource g (Basestring r) = Inr k"
    by (simp add: normalise_resource_string)
  then obtain db1 where db1: "set_vote g u (Basestring r) v db = Inr db1"
    by (simp add: set_vote_result)
  from k obtain db2 where db2: "set_vote g u (Basestring r) 0 db1 = Inr db2"
    by (simp add: set_vote_result)
  from k db2 have rows: "rows_of k u db2 = []"
    by (simp add: rows_of_set_vote_same)
  with k have "get_vote g u (Basestring r) db2 = Inr 0"
    by (simp add: get_vote_result)
  with k db1 db2 rows show "\<exists>k db1 db2. normalise_resource g (Basestring r) = Inr k \<and>
      set_vote g u (Basestring r) v db = Inr db1 \<and>
      set_vote g u (Basestring r) 0 db1 = Inr db2 \<and>
      get_vote g u (Basestring r) db2 = Inr 0 \<and>
      rows_of k u db2 = []"
    by blast
next
  show "\<forall>row \<in> set (run_calls g cs []). vote row \<noteq> 0"
    by (rule run_calls_nonzero) simp
qed

theorem clearing_deletes_the_row_witness:
  "set_vote (\<lambda>_::unit. Inl ResourceError) ''alice'' (Basestring ''wiki/Foo'') 1
     [\<lparr>resource = ''wiki/Foo'', username = ''bob'', vote = 1\<rparr>] =
     Inr [\<lparr>resource = ''wiki/Foo'', username = ''bob'', vote = 1\<rparr>,
          \<lparr>resource = ''wiki/Foo'', username = ''alice'', vote = 1\<rparr>] \<and>
   set_vote (\<lambda>_::unit. Inl ResourceError) ''alice'' (Basestring ''wiki/Foo'') 0
     [\<lparr>resource = ''wiki/Foo'', username = ''bob'', vote = 1\<rparr>,
      \<lparr>resource = ''wiki/Foo'', username = ''alice'', vote = 1\<rparr>] =
     Inr [\<lparr>resource = ''wiki/Foo'', username = ''bob'', vote = 1\<rparr>] \<and>
   get_vote (\<lambda>_::unit. Inl ResourceError) ''alice'' (Basestring ''wiki/Foo'')
     [\<lparr>resource = ''wiki/Foo'', username = ''bob'', vote = 1\<rparr>] = Inr 0 \<and>
   vote (hd (run_calls (\<lambda>_::unit. Inl ResourceError)
     [(''bob'', Basestring ''wiki/Foo'', 1), (''alice'', Basestring ''wiki/Foo'', 0)] [])) \<noteq> 0"
  using clearing_deletes_the_row [of "\<lambda>_::unit. Inl ResourceError" "''wiki/Foo''" "''alice''" 1
     "[\<lparr>resource = ''wiki/Foo'', username = ''bob'', vote = 1\<rparr>]"
     "[(''bob'', Basestring ''wiki/Foo'', 1), (''alice'', Basestring ''wiki/Foo'', 0)]"]
  by (simp add: set_vote_def get_vote_def normalise_resource_def strip_def delete_vote_def
      insert_vote_def select_vote_def or_zero_def)

text \<open>
  C5: on every table, \<^verbatim>\<open>get_vote_count(r)\<close> is the sum of the votes of the rows whose
  resource is the normalised \<open>r\<close>; when there is no such row the result is the integer 0.
\<close>

theorem get_vote_count_is_sum:
  "\<exists>k. normalise_resource g (Basestring r) = Inr k \<and>
     get_vote_count g (Basestring r) db =
       Inr (sum_list (map vote (filter (\<lambda>row. resource row = k) db))) \<and>
     (filter (\<lambda>row. resource row = k) db = [] \<longrightarrow> get_vote_count g (Basestring r) db = Inr 0)"
proof -
  obtain k where k: "normalise_resource g (Basestring r) = Inr k"
    by (simp add: normalise_resource_string)
  then have "get_vote_count g (Basestring r) db =
       Inr (sum_list (map vote (filter (\<lambda>row. resource row = k) db)))"
    by (rule get_vote_count_result)
  with k show ?thesis by auto
qed

theorem get_vote_count_is_sum_witness:
  "get_vote_count (\<lambda>_::unit. Inl ResourceError) (Basestring ''/wiki'')
     [\<lparr>resource = ''wiki/WikiStart'', username = ''alice'', vote = 1\<rparr>,
      \<lparr>resource = ''ticket/5'', username = ''alice'', vote = - 1\<rparr>,
      \<lparr>resource = ''wiki/WikiStart'', username = ''bob'', vote = 1\<rparr>] = Inr 2 \<and>
   filter (\<lambda>row. resource row = ''ticket/7'') 
     [\<lparr>resource = ''wiki/WikiStart'', username = ''alice'', vote = 1\<rparr>] = [] \<and>
   get_vote_count (\<lambda>_::unit. Inl ResourceError) (Basestring ''ticket/7'')
     [\<lparr>resource = ''wiki/WikiStart'', username = ''alice'', vote = 1\<rparr>] = Inr 0"
  using get_vote_count_is_sum [of "\<lambda>_::unit. Inl ResourceError" "''/wiki''"
     "[\<lparr>resource = ''wiki/WikiStart'', username = ''alice'', vote = 1\<rparr>,
      \<lparr>resource = ''ticket/5'', username = ''alice'', vote = - 1\<rparr>,
      \<lparr>resource = ''wiki/WikiStart'', username = ''bob'', vote = 1\<rparr>]"]
    get_vote_count_is_sum [of "\<lambda>_::unit. Inl ResourceError" "''ticket/7''"
     "[\<lparr>resource = ''wiki/WikiStart'', username = ''alice'', vote = 1\<rparr>]"]
  by (simp add: normalise_resource_def strip_def)

text \<open>
  C6: in the table left by any sequence of \<^verbatim>\<open>set_vote\<close> calls, \<^verbatim>\<open>get_vote_count(r)\<close> is
  the sum of \<^verbatim>\<open>get_vote(u, r)\<close> over the users \<open>u\<close> who ever called \<^verbatim>\<open>set_vote\<close> on the
  resource \<open>r\<close> (under any spelling with the same normal form), each user counted once.
\<close>

theorem get_vote_count_sums_get_vote:
  "\<exists>k. normalise_resource g (Basestring r) = Inr k \<and>
     get_vote_count g (Basestring r) (run_calls g cs []) =
       sum_results (map (\<lambda>u. get_vote g u (Basestring r) (run_calls g cs [])) (voters g k cs))"
proof -
  let ?db = "run_calls g cs []"
  obtain k where k: "normalise_resource g (Basestring r) = Inr k"
    by (simp add: normalise_resource_string)
  have one: "length (rows_of k u ?db) \<le> 1" for u
    by (rule run_calls_one_row) (simp add: rows_of_Nil)
  have "distinct (voters g k cs)" by (simp add: voters_def)
  moreover have "\<forall>row \<in> set ?db. resource row = k \<longrightarrow> username row \<in> set (voters g k cs)"
    using run_calls_rows [of _ g cs "[]"] by auto
  ultimately have "sum_list (map vote (filter (\<lambda>row. resource row = k) ?db)) =
      sum_list (map (\<lambda>u. sum_list (map vote (rows_of k u ?db))) (voters g k cs))"
    by (rule sum_by_user)
  also have "\<dots> = sum_list (map (\<lambda>u. case rows_of k u ?db of [] \<Rightarrow> 0 | row # _ \<Rightarrow> vote row)
      (voters g k cs))"
    by (simp only: one_row_sum [OF one])
  finally have "get_vote_count g (Basestring r) ?db =
      Inr (sum_list (map (\<lambda>u. case rows_of k u ?db of [] \<Rightarrow> 0 | row # _ \<Rightarrow> vote row)
        (voters g k cs)))"
    by (simp add: get_vote_count_result [OF k])
  also have "\<dots> = sum_results (map (\<lambda>u. get_vote g u (Basestring r) ?db) (voters g k cs))"
    by (simp only: get_vote_result [OF k] sum_results_Inr)
  finally show ?thesis using k by blast
qed

theorem get_vote_count_sums_get_vote_witness:
  "voters (\<lambda>_::unit. Inl ResourceError) ''ticket/5''
     [(''alice'', Basestring ''ticket/5'', 1), (''bob'', Basestring ''/ticket/5'', - 1),
      (''carol'', Basestring ''wiki'', 1), (''alice'', Basestring ''ticket/5'', 0)] =
     [''bob'', ''alice''] \<and>
   get_vote_count (\<lambda>_::unit. Inl ResourceError) (Basestring ''ticket/5'')
     (run_calls (\<lambda>_::unit. Inl ResourceError)
       [(''alice'', Basestring ''ticket/5'', 1), (''bob'', Basestring ''/ticket/5'', - 1),
        (''carol'', Basestring ''wiki'', 1), (''alice'', Basestring ''ticket/5'', 0)] []) = Inr (- 1) \<and>
   sum_results (map (\<lambda>u. get_vote (\<lambda>_::unit. Inl ResourceError) u (Basestring ''ticket/5'')
     (run_calls (\<lambda>_::unit. Inl ResourceError)
       [(''alice'', Basestring ''ticket/5'', 1), (''bob'', Basestring ''/ticket/5'', - 1),
        (''carol'', Basestring ''wiki'', 1), (''alice'', Basestring ''ticket/5'', 0)] []))
     [''bob'', ''alice'']) = Inr (- 1)"
  using get_vote_count_sums_get_vote [of "\<lambda>_::unit. Inl ResourceError" "''ticket/5''"
     "[(''alice'', Basestring ''ticket/5'', 1), (''bob'', Basestring ''/ticket/5'', - 1),
        (''carol'', Basestring ''wiki'', 1), (''alice'', Basestring ''ticket/5'', 0)]"]
  by (simp add: voters_def set_vote_def get_vote_def get_vote_count_def normalise_resource_def
      strip_def delete_vote_def insert_vote_def select_vote_def select_sum_vote_def or_zero_def)

text \<open>
  C7: on a string, \<^verbatim>\<open>normalise_resource\<close> removes the slashes at both ends and nothing else
  (the string is some slashes, the stripped string, some slashes, and the stripped string
  neither starts nor ends with a slash), and turns the stripped string \<^verbatim>\<open>wiki\<close> into
  \<^verbatim>\<open>wiki/WikiStart\<close>. The spellings \<^verbatim>\<open>/wiki/\<close>, \<^verbatim>\<open>wiki\<close> and \<^verbatim>\<open>/wiki\<close> have the same normal
  form, so that reading, writing and counting votes under one of them is the same as under
  another.
\<close>

theorem normalise_resource_strips_slashes:
  "(\<exists>pre post. s = pre @ strip (CHR ''/'') s @ post \<and>
      set pre \<subseteq> {CHR ''/''} \<and> set post \<subseteq> {CHR ''/''}) \<and>
   (strip (CHR ''/'') s = [] \<or>
      (hd (strip (CHR ''/'') s) \<noteq> CHR ''/'' \<and> last (strip (CHR ''/'') s) \<noteq> CHR ''/'')) \<and>
   normalise_resource g (Basestring s) =
     Inr (if strip (CHR ''/'') s = ''wiki'' then ''wiki/WikiStart'' else strip (CHR ''/'') s) \<and>
   normalise_resource g (Basestring ''/wiki/'') = Inr ''wiki/WikiStart'' \<and>
   normalise_resource g (Basestring ''wiki'') = Inr ''wiki/WikiStart'' \<and>
   normalise_resource g (Basestring ''/wiki'') = Inr ''wiki/WikiStart'' \<and>
   get_vote g u (Basestring ''/wiki/'') db = get_vote g u (Basestring ''wiki'') db \<and>
   get_vote g u (Basestring ''/wiki'') db = get_vote g u (Basestring ''wiki'') db \<and>
   set_vote g u (Basestring ''/wiki/'') v db = set_vote g u (Basestring ''wiki'') v db \<and>
   set_vote g u (Basestring ''/wiki'') v db = set_vote g u (Basestring ''wiki'') v db \<and>
   get_vote_count g (Basestring ''/wiki/'') db = get_vote_count g (Basestring ''wiki'') db \<and>
   get_vote_count g (Basestring ''/wiki'') db = get_vote_count g (Basestring ''wiki'') db"
proof -
  let ?c = "CHR ''/''"
  let ?post = "rev (takeWhile (\<lambda>x. x = ?c) (rev (dropWhile (\<lambda>x. x = ?c) s)))"
  have "s = takeWhile (\<lambda>x. x = ?c) s @ strip ?c s @ ?post"
    by (rule strip_decomp)
  moreover have "set (takeWhile (\<lambda>x. x = ?c) s) \<subseteq> {?c}"
    by (rule takeWhile_only)
  moreover have "set ?post \<subseteq> {?c}"
    by (simp only: set_rev takeWhile_only)
  ultimately have decomp: "\<exists>pre post. s = pre @ strip ?c s @ post \<and>
      set pre \<subseteq> {?c} \<and> set post \<subseteq> {?c}"
    by blast
  have ends: "strip ?c s = [] \<or> (hd (strip ?c s) \<noteq> ?c \<and> last (strip ?c s) \<noteq> ?c)"
    using strip_no_lead [of ?c s] strip_no_trail [of ?c s] by blast
  have a: "normalise_resource g (Basestring ''/wiki/'') = Inr ''wiki/WikiStart''"
    by (simp add: normalise_resource_def strip_def)
  have b: "normalise_resource g (Basestring ''wiki'') = Inr ''wiki/WikiStart''"
    by (simp add: normalise_resource_def strip_def)
  have c: "normalise_resource g (Basestring ''/wiki'') = Inr ''wiki/WikiStart''"
    by (simp add: normalise_resource_def strip_def)
  have "get_vote g u (Basestring ''/wiki/'') db = get_vote g u (Basestring ''wiki'') db"
    "get_vote g u (Basestring ''/wiki'') db = get_vote g u (Basestring ''wiki'') db"
    "set_vote g u (Basestring ''/wiki/'') v db = set_vote g u (Basestring ''wiki'') v db"
    "set_vote g u (Basestring ''/wiki'') v db = set_vote g u (Basestring ''wiki'') v db"
    "get_vote_count g (Basestring ''/wiki/'') db = get_vote_count g (Basestring ''wiki'') db"
    "get_vote_count g (Basestring ''/wiki'') db = get_vote_count g (Basestring ''wiki'') db"
    by (simp_all only: get_vote_def set_vote_def get_vote_count_def a b c)
  with decomp ends a b c show ?thesis
    by (simp only: normalise_resource_string simp_thms)
qed

theorem normalise_resource_strips_slashes_witness:
  "strip (CHR ''/'') ''//ticket/5/'' = ''ticket/5'' \<and>
   normalise_resource (\<lambda>_::unit. Inl ResourceError) (Basestring ''//ticket/5/'') = Inr ''ticket/5'' \<and>
   get_vote (\<lambda>_::unit. Inl ResourceError) ''alice'' (Basestring ''/wiki/'')
     [\<lparr>resource = ''wiki/WikiStart'', username = ''alice'', vote = 1\<rparr>] = Inr 1 \<and>
   get_vote (\<lambda>_::unit. Inl ResourceError) ''alice'' (Basestring ''wiki'')
     [\<lparr>resource = ''wiki/WikiStart'', username = ''alice'', vote = 1\<rparr>] = Inr 1"
  using normalise_resource_strips_slashes [of "''//ticket/5/''" "\<lambda>_::unit. Inl ResourceError"
     "''alice''" "[\<lparr>resource = ''wiki/WikiStart'', username = ''alice'', vote = 1\<rparr>]"]
  by (simp add: get_vote_def normalise_resource_def strip_def select_vote_def or_zero_def)

text \<open>
  C10: on strings \<^verbatim>\<open>normalise_resource\<close> is idempotent: the normal form of a string is its
  own normal form. In particular \<^verbatim>\<open>wiki/WikiStart\<close> is left as it is.
\<close>

theorem normalise_resource_idempotent:
  "(\<exists>k. normalise_resource g (Basestring s) = Inr k \<and>
      normalise_resource g (Basestring k) = Inr k) \<and>
   normalise_resource g (Basestring ''wiki/WikiStart'') = Inr ''wiki/WikiStart''"
proof
  obtain k where k: "normalise_resource g (Basestring s) = Inr k"
    by (simp add: normalise_resource_string)
  then have "normalise_resource g (Basestring k) = Inr k"
    by (rule normalise_resource_idem)
  with k show "\<exists>k. normalise_resource g (Basestring s) = Inr k \<and>
      normalise_resource g (Basestring k) = Inr k"
    by blast
next
  show "normalise_resource g (Basestring ''wiki/WikiStart'') = Inr ''wiki/WikiStart''"
    by (simp add: normalise_resource_string strip_wiki)
qed

theorem normalise_resource_idempotent_witness:
  "normalise_resource (\<lambda>_::unit. Inl ResourceError) (Basestring ''/wiki/'') = Inr ''wiki/WikiStart'' \<and>
   normalise_resource (\<lambda>_::unit. Inl ResourceError) (Basestring ''wiki/WikiStart'') =
     Inr ''wiki/WikiStart''"
  using normalise_resource_idempotent [of "\<lambda>_::unit. Inl ResourceError" "''/wiki/''"]
  by (simp add: normalise_resource_def strip_def)

text \<open>
  C2, as amended: a request of a caller who may modify votes, whose path gives a direction
  (\<^verbatim>\<open>up\<close> is +1, \<^verbatim>\<open>down\<close> is -1) and a resource, is answered without raising, and the
  caller's vote afterwards is 0 when the vote before was the requested direction, and the
  requested direction otherwise. Hence \<^verbatim>\<open>up\<close> followed by \<^verbatim>\<open>up\<close>, by the same user on the
  same resource, ends with the vote 0 when the vote before the two requests was not +1, and
  with +1 when it was +1; \<^verbatim>\<open>up\<close> followed by \<^verbatim>\<open>down\<close> ends with -1 from every table.
  The claim as written gives 0 for \<^verbatim>\<open>up\<close> twice from every table; the table left by one
  \<^verbatim>\<open>up\<close> request shows otherwise: two more \<^verbatim>\<open>up\<close> requests end with +1.
\<close>

theorem process_request_toggle:
  assumes "''VOTE_MODIFY'' \<in> set (perm a)" and "''VOTE_MODIFY'' \<in> set (perm b)"
    and "reporter_id b = reporter_id a"
    and "path_match (path_info a) = Some (''up'', res)"
    and "path_match (path_info b) = Some (dir, res)"
  shows "(\<exists>old resp db'.
      get_vote g (reporter_id b) (Basestring res) db = Inr old \<and>
      process_request g b db = (Inr resp, db') \<and>
      get_vote g (reporter_id b) (Basestring res) db' =
        Inr (if old = (if dir = ''up'' then 1 else - 1) then 0
             else (if dir = ''up'' then 1 else - 1))) \<and>
    (dir = ''up'' \<longrightarrow>
      get_vote g (reporter_id a) (Basestring res)
        (snd (process_request g b (snd (process_request g a db)))) =
      Inr (if get_vote g (reporter_id a) (Basestring res) db = Inr 1 then 1 else 0)) \<and>
    (dir = ''down'' \<longrightarrow>
      get_vote g (reporter_id a) (Basestring res)
        (snd (process_request g b (snd (process_request g a db)))) = Inr (- 1))"
proof -
  let ?V = "get_vote g (reporter_id a) (Basestring res)"
  have single: "\<exists>old resp db'.
      get_vote g (reporter_id b) (Basestring res) db = Inr old \<and>
      process_request g b db = (Inr resp, db') \<and>
      get_vote g (reporter_id b) (Basestring res) db' =
        Inr (if old = (if dir = ''up'' then 1 else - 1) then 0
             else (if dir = ''up'' then 1 else - 1))"
    using assms(2,5) by (rule process_request_vote)
  obtain old where old: "?V db = Inr old"
    and first: "?V (snd (process_request g a db)) = Inr (if old = 1 then 0 else 1)"
    using process_request_vote [OF assms(1,4), of g db] by auto
  let ?db1 = "snd (process_request g a db)"
  obtain mid where mid: "?V ?db1 = Inr mid"
    and second: "?V (snd (process_request g b ?db1)) =
        Inr (if mid = (if dir = ''up'' then 1 else - 1) then 0
             else (if dir = ''up'' then 1 else - 1))"
    using process_request_vote [OF assms(2,5), of g ?db1] assms(3) by auto
  from first mid have m: "mid = (if old = 1 then 0 else 1)" by simp
  from second m old have "dir = ''up'' \<longrightarrow>
      ?V (snd (process_request g b ?db1)) = Inr (if ?V db = Inr 1 then 1 else 0)"
    by simp
  moreover from second m have "dir = ''down'' \<longrightarrow>
      ?V (snd (process_request g b ?db1)) = Inr (- 1)"
    by simp
  ultimately show ?thesis using single by blast
qed

theorem process_request_toggle_witness:
  "''VOTE_MODIFY'' \<in> set (perm \<lparr>perm = [''VOTE_VIEW'', ''VOTE_MODIFY''],
      path_info = ''/vote/up/ticket/5'', reporter_id = ''alice'', js = False\<rparr>) \<and>
   path_match ''/vote/up/ticket/5'' = Some (''up'', ''ticket/5'') \<and>
   path_match ''/vote/down/ticket/5'' = Some (''down'', ''ticket/5'') \<and>
   get_vote (\<lambda>_::unit. Inl ResourceError) ''alice'' (Basestring ''ticket/5'') [] = Inr 0 \<and>
   get_vote (\<lambda>_::unit. Inl ResourceError) ''alice'' (Basestring ''ticket/5'')
     (snd (process_request (\<lambda>_::unit. Inl ResourceError)
        \<lparr>perm = [''VOTE_VIEW'', ''VOTE_MODIFY''], path_info = ''/vote/up/ticket/5'',
         reporter_id = ''alice'', js = True\<rparr>
        (snd (process_request (\<lambda>_::unit. Inl ResourceError)
           \<lparr>perm = [''VOTE_VIEW'', ''VOTE_MODIFY''], path_info = ''/vote/up/ticket/5'',
            reporter_id = ''alice'', js = False\<rparr> [])))) = Inr 0 \<and>
   get_vote (\<lambda>_::unit. Inl ResourceError) ''alice'' (Basestring ''ticket/5'')
     (snd (process_request (\<lambda>_::unit. Inl ResourceError)
        \<lparr>perm = [''VOTE_VIEW'', ''VOTE_MODIFY''], path_info = ''/vote/down/ticket/5'',
         reporter_id = ''alice'', js = True\<rparr>
        (snd (process_request (\<lambda>_::unit. Inl ResourceError)
           \<lparr>perm = [''VOTE_VIEW'', ''VOTE_MODIFY''], path_info = ''/vote/up/ticket/5'',
            reporter_id = ''alice'', js = False\<rparr> [])))) = Inr (- 1)"
proof -
  let ?g = "\<lambda>_::unit. Inl ResourceError"
  let ?a = "\<lparr>perm = [''VOTE_VIEW'', ''VOTE_MODIFY''], path_info = ''/vote/up/ticket/5'',
            reporter_id = ''alice'', js = False\<rparr>"
  let ?up = "\<lparr>perm = [''VOTE_VIEW'', ''VOTE_MODIFY''], path_info = ''/vote/up/ticket/5'',
         reporter_id = ''alice'', js = True\<rparr>"
  let ?down = "\<lparr>perm = [''VOTE_VIEW'', ''VOTE_MODIFY''], path_info = ''/vote/down/ticket/5'',
         reporter_id = ''alice'', js = True\<rparr>"
  have pa: "''VOTE_MODIFY'' \<in> set (perm ?a)" by simp
  have pu: "''VOTE_MODIFY'' \<in> set (perm ?up)" by simp
  have pd: "''VOTE_MODIFY'' \<in> set (perm ?down)" by simp
  have ma: "path_match (path_info ?a) = Some (''up'', ''ticket/5'')"
    by (simp add: path_match_def)
  have mu: "path_match (path_info ?up) = Some (''up'', ''ticket/5'')"
    by (simp add: path_match_def)
  have md: "path_match (path_info ?down) = Some (''down'', ''ticket/5'')"
    by (simp add: path_match_def)
  have v0: "get_vote ?g ''alice'' (Basestring ''ticket/5'') [] = Inr 0"
    by (simp add: get_vote_def normalise_resource_def strip_def select_vote_def or_zero_def)
  have ru: "reporter_id ?up = reporter_id ?a" by simp
  have rd: "reporter_id ?down = reporter_id ?a" by simp
  from process_request_toggle [OF pa pu ru ma mu, of ?g "[]"] v0
  have upup: "get_vote ?g ''alice'' (Basestring ''ticket/5'')
     (snd (process_request ?g ?up (snd (process_request ?g ?a [])))) = Inr 0"
    by simp
  from process_request_toggle [OF pa pd rd ma md, of ?g "[]"]
  have updown: "get_vote ?g ''alice'' (Basestring ''ticket/5'')
     (snd (process_request ?g ?down (snd (process_request ?g ?a [])))) = Inr (- 1)"
    by simp
  from pa ma md v0 upup updown show ?thesis by simp
qed

theorem up_twice_after_up_counterexample:
  "snd (process_request (\<lambda>_::unit. Inl ResourceError)
      \<lparr>perm = [''VOTE_MODIFY''], path_info = ''/vote/up/ticket/5'',
       reporter_id = ''alice'', js = False\<rparr> []) =
     [\<lparr>resource = ''ticket/5'', username = ''alice'', vote = 1\<rparr>] \<and>
   get_vote (\<lambda>_::unit. Inl ResourceError) ''alice'' (Basestring ''ticket/5'')
     (snd (process_request (\<lambda>_::unit. Inl ResourceError)
        \<lparr>perm = [''VOTE_MODIFY''], path_info = ''/vote/up/ticket/5'',
         reporter_id = ''alice'', js = False\<rparr>
        (snd (process_request (\<lambda>_::unit. Inl ResourceError)
           \<lparr>perm = [''VOTE_MODIFY''], path_info = ''/vote/up/ticket/5'',
            reporter_id = ''alice'', js = False\<rparr>
           [\<lparr>resource = ''ticket/5'', username = ''alice'', vote = 1\<rparr>])))) = Inr 1"
  by (simp add: process_request_def path_match_def normalise_resource_def strip_def
      get_vote_def set_vote_def select_vote_def delete_vote_def insert_vote_def or_zero_def)

text \<open>
  C8, as amended: \<^verbatim>\<open>set_vote\<close> does not check the vote value, and there is no error for an
  invalid one: for every integer \<open>v\<close> that fits the vote column (here: -2^31 \<le> v < 2^31), also
  outside -1, 0 and +1, and from any table, \<^verbatim>\<open>set_vote(u, r, v)\<close> returns without raising,
  having deleted the rows of its key and, when \<open>v\<close> is not 0, inserted the row with \<open>v\<close> as it
  was given. The range -1, 0, +1 is kept by the caller: \<^verbatim>\<open>process_request\<close> either leaves the
  table as it is or applies \<^verbatim>\<open>set_vote\<close> with one of -1, 0 and +1. The claim as written has
  a value such as 5 rejected; \<^verbatim>\<open>set_vote\<close> stores it and \<^verbatim>\<open>get_vote\<close> returns it. Nothing is
  said of integers beyond the column's range.
\<close>

theorem set_vote_stores_unvalidated_value:
  "(- (2 ^ 31) \<le> v \<and> v < 2 ^ 31 \<longrightarrow>
      (\<exists>k. normalise_resource g (Basestring r) = Inr k \<and>
         set_vote g u (Basestring r) v db =
           Inr (delete_vote u k db @
                (if v \<noteq> 0 then [\<lparr>resource = k, username = u, vote = v\<rparr>] else [])))) \<and>
   (\<exists>v'. v' \<in> {- 1, 0, 1} \<and>
      (snd (process_request g req db) = db \<or>
       (\<exists>res. set_vote g (reporter_id req) (Basestring res) v' db =
          Inr (snd (process_request g req db)))))"
proof
  obtain k where k: "normalise_resource g (Basestring r) = Inr k"
    by (simp add: normalise_resource_string)
  then have "set_vote g u (Basestring r) v db =
        Inr (delete_vote u k db @
             (if v \<noteq> 0 then [\<lparr>resource = k, username = u, vote = v\<rparr>] else []))"
    by (rule set_vote_result)
  with k show "- (2 ^ 31) \<le> v \<and> v < 2 ^ 31 \<longrightarrow>
      (\<exists>k. normalise_resource g (Basestring r) = Inr k \<and>
         set_vote g u (Basestring r) v db =
           Inr (delete_vote u k db @
                (if v \<noteq> 0 then [\<lparr>resource = k, username = u, vote = v\<rparr>] else [])))"
    by blast
next
  show "\<exists>v'. v' \<in> {- 1, 0, 1} \<and>
      (snd (process_request g req db) = db \<or>
       (\<exists>res. set_vote g (reporter_id req) (Basestring res) v' db =
          Inr (snd (process_request g req db))))"
    by (rule process_request_table)
qed

theorem set_vote_stores_unvalidated_value_witness:
  "- (2 ^ 31) \<le> (- 7 :: int) \<and> (- 7 :: int) < 2 ^ 31 \<and>
   set_vote (\<lambda>_::unit. Inl ResourceError) ''bob'' (Basestring ''/wiki/Foo'') (- 7)
     [\<lparr>resource = ''wiki/Foo'', username = ''bob'', vote = 1\<rparr>,
      \<lparr>resource = ''wiki/Foo'', username = ''alice'', vote = 1\<rparr>] =
     Inr [\<lparr>resource = ''wiki/Foo'', username = ''alice'', vote = 1\<rparr>,
          \<lparr>resource = ''wiki/Foo'', username = ''bob'', vote = - 7\<rparr>] \<and>
   snd (process_request (\<lambda>_::unit. Inl ResourceError)
     \<lparr>perm = [''VOTE_MODIFY''], path_info = ''/vote/down/wiki/Foo'',
      reporter_id = ''bob'', js = False\<rparr>
     [\<lparr>resource = ''wiki/Foo'', username = ''bob'', vote = 1\<rparr>]) =
     [\<lparr>resource = ''wiki/Foo'', username = ''bob'', vote = - 1\<rparr>]"
proof -
  let ?g = "\<lambda>_::unit. Inl ResourceError"
  let ?db = "[\<lparr>resource = ''wiki/Foo'', username = ''bob'', vote = 1\<rparr>,
      \<lparr>resource = ''wiki/Foo'', username = ''alice'', vote = 1\<rparr>]"
  have range: "- (2 ^ 31) \<le> (- 7 :: int) \<and> (- 7 :: int) < 2 ^ 31" by simp
  have k: "normalise_resource ?g (Basestring ''/wiki/Foo'') = Inr ''wiki/Foo''"
    by (simp add: normalise_resource_def strip_def)
  from set_vote_stores_unvalidated_value
      [of "- 7" ?g "''/wiki/Foo''" "''bob''" ?db, THEN conjunct1] range
  have "\<exists>k. normalise_resource ?g (Basestring ''/wiki/Foo'') = Inr k \<and>
         set_vote ?g ''bob'' (Basestring ''/wiki/Foo'') (- 7) ?db =
           Inr (delete_vote ''bob'' k ?db @
                (if (- 7 :: int) \<noteq> 0
                 then [\<lparr>resource = k, username = ''bob'', vote = - 7\<rparr>] else []))"
    by (rule mp)
  with k have stored: "set_vote ?g ''bob'' (Basestring ''/wiki/Foo'') (- 7) ?db =
      Inr [\<lparr>resource = ''wiki/Foo'', username = ''alice'', vote = 1\<rparr>,
           \<lparr>resource = ''wiki/Foo'', username = ''bob'', vote = - 7\<rparr>]"
    by (auto simp: delete_vote_def)
  have handled: "snd (process_request ?g
     \<lparr>perm = [''VOTE_MODIFY''], path_info = ''/vote/down/wiki/Foo'',
      reporter_id = ''bob'', js = False\<rparr>
     [\<lparr>resource = ''wiki/Foo'', username = ''bob'', vote = 1\<rparr>]) =
     [\<lparr>resource = ''wiki/Foo'', username = ''bob'', vote = - 1\<rparr>]"
    by (simp add: process_request_def path_match_def normalise_resource_def strip_def
        get_vote_def set_vote_def select_vote_def delete_vote_def insert_vote_def or_zero_def)
  from range stored handled show ?thesis by simp
qed

theorem set_vote_out_of_range_counterexample:
  "set_vote (\<lambda>_::unit. Inl ResourceError) ''alice'' (Basestring ''ticket/5'') 5 [] =
     Inr [\<lparr>resource = ''ticket/5'', username = ''alice'', vote = 5\<rparr>] \<and>
   get_vote (\<lambda>_::unit. Inl ResourceError) ''alice'' (Basestring ''ticket/5'')
     [\<lparr>resource = ''ticket/5'', username = ''alice'', vote = 5\<rparr>] = Inr 5"
  by (simp add: normalise_resource_def strip_def
      get_vote_def set_vote_def select_vote_def delete_vote_def insert_vote_def or_zero_def)

text \<open>
  C9: on every table, \<^verbatim>\<open>str_count(r)\<close> is the vote count of \<open>r\<close> written with its sign: a
  \<^verbatim>\<open>+\<close> when the count is not negative and a \<^verbatim>\<open>-\<close> otherwise, followed by the decimal digits
  of the absolute value, with no leading zero. The count 3 gives \<^verbatim>\<open>+3\<close>, the count -1
  gives \<^verbatim>\<open>-1\<close> and the count 0 gives \<^verbatim>\<open>+0\<close>.
\<close>

theorem str_count_explicit_sign:
  "(\<exists>c ds. get_vote_count g (Basestring r) db = Inr c \<and>
      str_count g (Basestring r) db = Inr ((if 0 \<le> c then CHR ''+'' else CHR ''-'') # ds) \<and>
      ds \<noteq> [] \<and> set ds \<subseteq> set ''0123456789'' \<and> decimal_value ds = nat \<bar>c\<bar> \<and>
      (hd ds = CHR ''0'') = (c = 0)) \<and>
   (get_vote_count g (Basestring r) db = Inr 3 \<longrightarrow> str_count g (Basestring r) db = Inr ''+3'') \<and>
   (get_vote_count g (Basestring r) db = Inr (- 1) \<longrightarrow>
      str_count g (Basestring r) db = Inr ''-1'') \<and>
   (get_vote_count g (Basestring r) db = Inr 0 \<longrightarrow> str_count g (Basestring r) db = Inr ''+0'')"
proof -
  obtain c where c: "get_vote_count g (Basestring r) db = Inr c"
    by (simp add: get_vote_count_def normalise_resource_string)
  let ?ds = "decimal (nat \<bar>c\<bar>)"
  from c have s: "str_count g (Basestring r) db =
      Inr ((if 0 \<le> c then CHR ''+'' else CHR ''-'') # ?ds)"
    by (simp add: str_count_def format_plus_i_def)
  have d1: "?ds \<noteq> []" by (rule decimal_nonempty)
  have d2: "set ?ds \<subseteq> set ''0123456789''" by (rule decimal_digits)
  have d3: "decimal_value ?ds = nat \<bar>c\<bar>" by (rule decimal_value_decimal)
  have "(hd ?ds = CHR ''0'') = (nat \<bar>c\<bar> = 0)" by (rule decimal_hd_zero)
  also have "\<dots> = (c = 0)" by simp
  finally have d4: "(hd ?ds = CHR ''0'') = (c = 0)" .
  have body: "get_vote_count g (Basestring r) db = Inr c \<and>
      str_count g (Basestring r) db = Inr ((if 0 \<le> c then CHR ''+'' else CHR ''-'') # ?ds) \<and>
      ?ds \<noteq> [] \<and> set ?ds \<subseteq> set ''0123456789'' \<and> decimal_value ?ds = nat \<bar>c\<bar> \<and>
      (hd ?ds = CHR ''0'') = (c = 0)"
    by (rule conjI [OF c], rule conjI [OF s], rule conjI [OF d1], rule conjI [OF d2],
        rule conjI [OF d3], rule d4)
  have general: "\<exists>c ds. get_vote_count g (Basestring r) db = Inr c \<and>
      str_count g (Basestring r) db = Inr ((if 0 \<le> c then CHR ''+'' else CHR ''-'') # ds) \<and>
      ds \<noteq> [] \<and> set ds \<subseteq> set ''0123456789'' \<and> decimal_value ds = nat \<bar>c\<bar> \<and>
      (hd ds = CHR ''0'') = (c = 0)"
    apply (rule exI [where x = c])
    apply (rule exI [where x = "decimal (nat \<bar>c\<bar>)"])
    apply (rule body)
    done
  have ex: "get_vote_count g (Basestring r) db = Inr n \<longrightarrow>
      str_count g (Basestring r) db = Inr (format_plus_i n)" for n
    by (simp add: str_count_def)
  have e3: "get_vote_count g (Basestring r) db = Inr 3 \<longrightarrow>
      str_count g (Basestring r) db = Inr ''+3''"
    using ex [of 3] by (simp only: format_plus_i_examples)
  have e1: "get_vote_count g (Basestring r) db = Inr (- 1) \<longrightarrow>
      str_count g (Basestring r) db = Inr ''-1''"
    using ex [of "- 1"] by (simp only: format_plus_i_examples)
  have e0: "get_vote_count g (Basestring r) db = Inr 0 \<longrightarrow>
      str_count g (Basestring r) db = Inr ''+0''"
    using ex [of 0] by (simp only: format_plus_i_examples)
  show ?thesis
    by (rule conjI [OF general], rule conjI [OF e3], rule conjI [OF e1], rule e0)
qed

theorem str_count_explicit_sign_witness:
  "str_count (\<lambda>_::unit. Inl ResourceError) (Basestring ''ticket/5'')
     [\<lparr>resource = ''ticket/5'', username = ''alice'', vote = 1\<rparr>,
      \<lparr>resource = ''ticket/5'', username = ''bob'', vote = 1\<rparr>,
      \<lparr>resource = ''ticket/5'', username = ''carol'', vote = 1\<rparr>] = Inr ''+3'' \<and>
   str_count (\<lambda>_::unit. Inl ResourceError) (Basestring ''ticket/5'')
     [\<lparr>resource = ''ticket/5'', username = ''alice'', vote = - 1\<rparr>] = Inr ''-1'' \<and>
   str_count (\<lambda>_::unit. Inl ResourceError) (Basestring ''ticket/5'') [] = Inr ''+0''"
proof -
  let ?g = "\<lambda>_::unit. Inl ResourceError"
  let ?db3 = "[\<lparr>resource = ''ticket/5'', username = ''alice'', vote = 1\<rparr>,
      \<lparr>resource = ''ticket/5'', username = ''bob'', vote = 1\<rparr>,
      \<lparr>resource = ''ticket/5'', username = ''carol'', vote = 1\<rparr>]"
  let ?db1 = "[\<lparr>resource = ''ticket/5'', username = ''alice'', vote = - 1\<rparr>]"
  have c3: "get_vote_count ?g (Basestring ''ticket/5'') ?db3 = Inr 3"
    by (simp add: get_vote_count_def normalise_resource_def strip_def select_sum_vote_def
        or_zero_def)
  have c1: "get_vote_count ?g (Basestring ''ticket/5'') ?db1 = Inr (- 1)"
    by (simp add: get_vote_count_def normalise_resource_def strip_def select_sum_vote_def
        or_zero_def)
  have c0: "get_vote_count ?g (Basestring ''ticket/5'') [] = Inr 0"
    by (simp add: get_vote_count_def normalise_resource_def strip_def select_sum_vote_def
        or_zero_def)
  have s3: "str_count ?g (Basestring ''ticket/5'') ?db3 = Inr ''+3''"
    using str_count_explicit_sign
      [of ?g "''ticket/5''" ?db3, THEN conjunct2, THEN conjunct1] c3
    by (rule mp)
  have s1: "str_count ?g (Basestring ''ticket/5'') ?db1 = Inr ''-1''"
    using str_count_explicit_sign
      [of ?g "''ticket/5''" ?db1, THEN conjunct2, THEN conjunct2, THEN conjunct1] c1
    by (rule mp)
  have s0: "str_count ?g (Basestring ''ticket/5'') [] = Inr ''+0''"
    using str_count_explicit_sign
      [of ?g "''ticket/5''" "[]", THEN conjunct2, THEN conjunct2, THEN conjunct2] c0
    by (rule mp)
  show ?thesis
    by (rule conjI [OF s3], rule conjI [OF s1], rule s0)
qed

end
